theory Spec2Isabelle
  imports Main
begin

unbundle bit_operations_syntax

section \<open>Object flags (utils/flags.py)\<close>

text \<open>
  \<open>ObjectFlag\<close> is an \<open>IntFlag\<close> whose members are numbered by \<open>auto()\<close>: the first
  member is 1 and each later one is the next power of two. The members used by the
  object model are listed with the position they have in the enumeration.
\<close>

definition INVISIBLE :: int where "INVISIBLE = 2 ^ 0"
definition NDESCBIT :: int where "NDESCBIT = 2 ^ 1"
definition CONTBIT :: int where "CONTBIT = 2 ^ 3"
definition SURFACEBIT :: int where "SURFACEBIT = 2 ^ 4"
definition OPENBIT :: int where "OPENBIT = 2 ^ 5"
definition TRANSBIT :: int where "TRANSBIT = 2 ^ 6"
definition TAKEBIT :: int where "TAKEBIT = 2 ^ 8"
definition LIGHTBIT :: int where "LIGHTBIT = 2 ^ 12"
definition ONBIT :: int where "ONBIT = 2 ^ 13"
definition ACTORBIT :: int where "ACTORBIT = 2 ^ 15"
definition LOCKEDBIT :: int where "LOCKEDBIT = 2 ^ 34"
definition OPENABLE :: int where "OPENABLE = 2 ^ 35"

section \<open>Game objects (objects/base.py, room.py, item.py, container.py, actor.py)\<close>

text \<open>
  The class of an object. \<open>Container\<close> is a subclass of \<open>Item\<close>; \<open>Room\<close>, \<open>Item\<close> and
  \<open>Actor\<close> are subclasses of \<open>GameObject\<close>, which can also be instantiated itself.
\<close>

datatype kind = GameObject | Room | Item | Container | Actor

text \<open>
  One record holds the attributes of all classes; an attribute that a class does not
  define is never read for an object of that class (see \<open>has_fdesc\<close>, \<open>has_ldesc\<close>).
  Objects are referred to by identity, modelled as a natural number; the store maps
  every identity to the object's attributes. The room hook \<open>room_action\<close> is kept as
  the truth value its call returns for a verb, when a hook is installed.
\<close>

record game_object =
  kind :: kind
  short_desc :: string
  long_desc :: string
  flags :: int
  location :: "nat option"
  contents :: "nat list"
  seen :: bool
  fdesc :: string
  ldesc :: string
  visited :: bool
  light_level :: int
  room_action :: "(string \<Rightarrow> bool) option"
  is_surface :: bool
  health :: int
  max_health :: int
  is_dead :: bool

type_synonym world = "nat \<Rightarrow> game_object"

subsection \<open>Flag operations of \<open>GameObject\<close>\<close>

definition has_flag :: "game_object \<Rightarrow> int \<Rightarrow> bool" where
  "has_flag self flag = (flags self AND flag \<noteq> 0)"

text \<open>
  The operators \<open>|\<close>, \<open>&\<close> and \<open>~\<close> with an \<open>ObjectFlag\<close> operand are those of
  \<open>IntFlag\<close>: the integer operation, followed by the construction of an \<open>ObjectFlag\<close>
  from the integer. \<open>ObjectFlag_value\<close> is the value of that object, as the \<open>enum\<close>
  module of Python 3.11 computes it for a flag class whose 36 members fill the bits
  0 to 35 and whose boundary is \<open>KEEP\<close>: a value that is not negative is kept, and a
  negative one is taken as a complement, within the declared bits when it fits there
  and within its own bit length otherwise. \<open>bit_length\<close> is \<open>int.bit_length\<close> for an
  argument that is not negative; Python's takes the absolute value first.
\<close>

definition all_bits :: int where "all_bits = 2 ^ 36 - 1"

function bit_length :: "int \<Rightarrow> nat" where
  "bit_length k = (if k \<le> 0 then 0 else Suc (bit_length (k div 2)))"
  by pat_completeness auto
termination
  by (relation "measure nat") auto

declare bit_length.simps [simp del]

definition ObjectFlag_value :: "int \<Rightarrow> int" where
  "ObjectFlag_value v =
     (let v1 = (if \<not> (NOT all_bits \<le> v \<and> v \<le> all_bits) \<and> v < 0
                then max (all_bits + 1) (2 ^ bit_length \<bar>v\<bar>) + v
                else v)
      in if v1 < 0 then all_bits + 1 + v1 else v1)"

text \<open>\<open>self.flags |= flag\<close> and \<open>self.flags &= ~flag\<close>, for a member \<open>flag\<close>.\<close>

definition set_flag :: "game_object \<Rightarrow> int \<Rightarrow> game_object" where
  "set_flag self flag = self\<lparr>flags := ObjectFlag_value (flags self OR flag)\<rparr>"

definition clear_flag :: "game_object \<Rightarrow> int \<Rightarrow> game_object" where
  "clear_flag self flag =
     self\<lparr>flags := ObjectFlag_value (flags self AND ObjectFlag_value (NOT flag))\<rparr>"

subsection \<open>Actor health (objects/actor.py)\<close>

text \<open>\<open>Actor.take_damage\<close>: the result is the returned pair and the actor afterwards.\<close>

definition take_damage :: "int \<Rightarrow> game_object \<Rightarrow> (int \<times> bool) \<times> game_object" where
  "take_damage amount self =
     (if is_dead self then ((0, True), self)
      else
        let actual_damage = min amount (health self);
            self1 = self\<lparr>health := health self - actual_damage\<rparr>
        in if health self1 \<le> 0
           then ((actual_damage, True), self1\<lparr>is_dead := True, health := 0\<rparr>)
           else ((actual_damage, False), self1))"

text \<open>\<open>Actor.heal\<close>: the result is the amount restored and the actor afterwards.\<close>

definition heal :: "int \<Rightarrow> game_object \<Rightarrow> int \<times> game_object" where
  "heal amount self =
     (if is_dead self then (0, self)
      else
        let old_health = health self;
            self1 = self\<lparr>health := min (health self + amount) (max_health self)\<rparr>
        in (health self1 - old_health, self1))"

text \<open>A sequence of health operations applied to one actor, in order.\<close>

datatype health_op = TakeDamage int | Heal int

fun apply_health_op :: "game_object \<Rightarrow> health_op \<Rightarrow> game_object" where
  "apply_health_op a (TakeDamage n) = snd (take_damage n a)"
| "apply_health_op a (Heal n) = snd (heal n a)"

definition run_health_ops :: "health_op list \<Rightarrow> game_object \<Rightarrow> game_object" where
  "run_health_ops ops a = foldl apply_health_op a ops"

fun op_amount :: "health_op \<Rightarrow> int" where
  "op_amount (TakeDamage n) = n"
| "op_amount (Heal n) = n"

text \<open>
  The state an \<open>Actor\<close> is constructed in, given its \<open>health\<close> argument: \<open>max_health\<close>
  is the same value and \<open>is_dead\<close> is false.
\<close>

definition blank :: game_object where
  "blank = \<lparr>kind = GameObject, short_desc = [], long_desc = [], flags = 0,
             location = None, contents = [], seen = False, fdesc = [], ldesc = [],
             visited = False, light_level = 0, room_action = None, is_surface = False,
             health = 0, max_health = 0, is_dead = False\<rparr>"

definition new_actor :: "int \<Rightarrow> game_object" where
  "new_actor h = blank\<lparr>kind := Actor, flags := ACTORBIT, health := h, max_health := h\<rparr>"

text \<open>The health invariant of the data model.\<close>

definition health_inv :: "game_object \<Rightarrow> bool" where
  "health_inv a = (0 \<le> health a \<and> health a \<le> max_health a \<and> (is_dead a = (health a = 0)))"

subsection \<open>Container state machine (objects/container.py)\<close>

text \<open>
  The \<open>Container\<close> constructor: the container flag is always set, the surface flag is
  set for a surface, and \<open>is_surface\<close> is stored as an attribute of its own.
\<close>

definition new_container :: "string \<Rightarrow> int \<Rightarrow> bool \<Rightarrow> game_object" where
  "new_container sd fl surface =
     blank\<lparr>kind := Container, short_desc := sd,
           flags := (if surface
                     then ObjectFlag_value (ObjectFlag_value (fl OR CONTBIT) OR SURFACEBIT)
                     else ObjectFlag_value (fl OR CONTBIT)),
           is_surface := surface\<rparr>"

definition is_open :: "game_object \<Rightarrow> bool" where
  "is_open self = (if is_surface self then True else has_flag self OPENBIT)"

definition is_openable :: "game_object \<Rightarrow> bool" where
  "is_openable self = (if is_surface self then False else has_flag self OPENABLE)"

definition is_transparent :: "game_object \<Rightarrow> bool" where
  "is_transparent self = has_flag self TRANSBIT"

definition is_locked :: "game_object \<Rightarrow> bool" where
  "is_locked self = has_flag self LOCKEDBIT"

text \<open>
  Each transition returns the pair (success, message) and the container afterwards.
  \<open>Container.open\<close> and \<open>Container.close\<close> are named \<open>container_open\<close> and
  \<open>container_close\<close> here.
\<close>

definition container_open :: "game_object \<Rightarrow> (bool \<times> string) \<times> game_object" where
  "container_open self =
     (if is_surface self then ((False, ''You can't open that.''), self)
      else if \<not> is_openable self then ((False, ''You can't open that.''), self)
      else if is_locked self then ((False, ''The '' @ short_desc self @ '' is locked.''), self)
      else if is_open self then ((False, ''The '' @ short_desc self @ '' is already open.''), self)
      else ((True, ''Opened.''), set_flag self OPENBIT))"

definition container_close :: "game_object \<Rightarrow> (bool \<times> string) \<times> game_object" where
  "container_close self =
     (if is_surface self then ((False, ''You can't close that.''), self)
      else if \<not> is_openable self then ((False, ''You can't close that.''), self)
      else if \<not> is_open self then ((False, ''The '' @ short_desc self @ '' is already closed.''), self)
      else ((True, ''Closed.''), clear_flag self OPENBIT))"

definition lock :: "game_object \<Rightarrow> (bool \<times> string) \<times> game_object" where
  "lock self =
     (if is_surface self then ((False, ''You can't lock that.''), self)
      else if \<not> is_open self then
        (if is_locked self then ((False, ''The '' @ short_desc self @ '' is already locked.''), self)
         else ((True, ''Locked.''), set_flag self LOCKEDBIT))
      else ((False, ''The '' @ short_desc self @ '' must be closed first.''), self))"

definition unlock :: "game_object \<Rightarrow> (bool \<times> string) \<times> game_object" where
  "unlock self =
     (if is_surface self then ((False, ''You can't unlock that.''), self)
      else if \<not> is_locked self then ((False, ''The '' @ short_desc self @ '' isn't locked.''), self)
      else ((True, ''Unlocked.''), clear_flag self LOCKEDBIT))"

subsection \<open>Containment graph (objects/base.py)\<close>

text \<open>
  \<open>GameObject.move_to\<close>. The three assignments are made one after the other on the
  store, so that the old parent, the new parent and the object itself may coincide.
  The method has no failing path: it returns the store afterwards.
\<close>

definition move_to :: "nat \<Rightarrow> nat option \<Rightarrow> world \<Rightarrow> world" where
  "move_to self new_location w =
     (let w1 = (case location (w self) of
                  None \<Rightarrow> w
                | Some old \<Rightarrow>
                    if self \<in> set (contents (w old))
                    then w(old := (w old)\<lparr>contents := remove1 self (contents (w old))\<rparr>)
                    else w);
          w2 = w1(self := (w1 self)\<lparr>location := new_location\<rparr>)
      in case new_location of
           None \<Rightarrow> w2
         | Some p \<Rightarrow>
             if self \<notin> set (contents (w2 p))
             then w2(p := (w2 p)\<lparr>contents := contents (w2 p) @ [self]\<rparr>)
             else w2)"

definition is_in :: "world \<Rightarrow> nat \<Rightarrow> nat \<Rightarrow> bool" where
  "is_in w self container = (location (w self) = Some container)"

text \<open>
  The loop of \<open>GameObject.get_room\<close>, started at \<open>obj\<close>. It does not return on a cyclic
  parent chain without a room, which is the value \<open>None\<close> here; \<open>Some None\<close> is the
  Python result \<open>None\<close>.
\<close>

partial_function (option) get_room_loop :: "world \<Rightarrow> nat option \<Rightarrow> nat option option" where
  "get_room_loop w obj =
     (case obj of
        None \<Rightarrow> Some None
      | Some x \<Rightarrow> if kind (w x) = Room then Some (Some x) else get_room_loop w (location (w x)))"

declare get_room_loop.simps [code]

definition get_room :: "world \<Rightarrow> nat \<Rightarrow> nat option option" where
  "get_room w self = get_room_loop w (Some self)"

text \<open>The loop of \<open>GameObject._containers_accessible\<close>, started at \<open>container\<close>.\<close>

partial_function (option) containers_accessible_loop :: "world \<Rightarrow> nat option \<Rightarrow> bool option" where
  "containers_accessible_loop w container =
     (case container of
        None \<Rightarrow> Some True
      | Some c \<Rightarrow>
          if \<not> (flags (w c) AND OPENBIT \<noteq> 0 \<or> flags (w c) AND TRANSBIT \<noteq> 0) then Some False
          else containers_accessible_loop w (location (w c)))"

declare containers_accessible_loop.simps [code]

definition containers_accessible :: "world \<Rightarrow> nat \<Rightarrow> bool option" where
  "containers_accessible w self = containers_accessible_loop w (location (w self))"

text \<open>The loop of \<open>GameObject.is_accessible_to\<close>, started at \<open>container\<close>.\<close>

partial_function (option) is_accessible_loop ::
    "world \<Rightarrow> nat \<Rightarrow> nat \<Rightarrow> nat option \<Rightarrow> nat option \<Rightarrow> bool option" where
  "is_accessible_loop w self actor actor_room container =
     (case container of
        None \<Rightarrow> Some False
      | Some c \<Rightarrow>
          if c = actor \<or> Some c = actor_room then containers_accessible w self
          else is_accessible_loop w self actor actor_room (location (w c)))"

declare is_accessible_loop.simps [code]

definition is_accessible_to :: "world \<Rightarrow> nat \<Rightarrow> nat \<Rightarrow> bool option" where
  "is_accessible_to w self actor =
     (if is_in w self actor then Some True
      else case get_room w actor of
             None \<Rightarrow> None
           | Some actor_room \<Rightarrow>
               if (case actor_room of None \<Rightarrow> False | Some r \<Rightarrow> is_in w self r) then Some True
               else is_accessible_loop w self actor actor_room (location (w self)))"

text \<open>
  The content subtree of an object: its children, their children, and so on.
\<close>

inductive in_subtree :: "world \<Rightarrow> nat \<Rightarrow> nat \<Rightarrow> bool" for w :: world and r :: nat where
  child: "x \<in> set (contents (w r)) \<Longrightarrow> in_subtree w r x"
| deeper: "in_subtree w r y \<Longrightarrow> x \<in> set (contents (w y)) \<Longrightarrow> in_subtree w r x"

text \<open>
  The containment invariant of the data model: no children list has a duplicate, and
  an object is in a children list exactly when that list's owner is its location.
\<close>

definition containment_wf :: "world \<Rightarrow> bool" where
  "containment_wf w =
     (\<forall>p. distinct (contents (w p)) \<and> (\<forall>x. x \<in> set (contents (w p)) \<longleftrightarrow> location (w x) = Some p))"

subsection \<open>Rooms (objects/room.py)\<close>

datatype ActionResult = NOT_HANDLED | HANDLED | BLOCKED

definition new_room :: "string \<Rightarrow> string \<Rightarrow> int \<Rightarrow> game_object" where
  "new_room sd ld fl =
     blank\<lparr>kind := Room, short_desc := sd, long_desc := ld, flags := fl, light_level := 1\<rparr>"

definition new_item :: "string \<Rightarrow> string \<Rightarrow> string \<Rightarrow> int \<Rightarrow> game_object" where
  "new_item sd fd ld fl =
     blank\<lparr>kind := Item, short_desc := sd, fdesc := fd, ldesc := ld, flags := fl\<rparr>"

text \<open>\<open>Room.is_lit\<close>.\<close>

definition is_lit :: "world \<Rightarrow> nat \<Rightarrow> bool" where
  "is_lit w self =
     (if light_level (w self) > 0 then True
      else list_ex (\<lambda>obj. has_flag (w obj) LIGHTBIT \<and> has_flag (w obj) ONBIT) (contents (w self)))"

text \<open>
  \<open>hasattr(obj, 'fdesc')\<close> and \<open>hasattr(obj, 'ldesc')\<close>: the attributes are set by the
  constructors of \<open>Item\<close> (and so \<open>Container\<close>) and \<open>Actor\<close>, and by no other class.
\<close>

definition has_fdesc :: "game_object \<Rightarrow> bool" where
  "has_fdesc obj = (kind obj = Item \<or> kind obj = Container \<or> kind obj = Actor)"

definition has_ldesc :: "game_object \<Rightarrow> bool" where
  "has_ldesc obj = (kind obj = Item \<or> kind obj = Container \<or> kind obj = Actor)"

text \<open>The loop of \<open>Room.describe\<close> over the listed objects: the lines and the store.\<close>

fun describe_objects :: "nat list \<Rightarrow> world \<Rightarrow> string list \<times> world" where
  "describe_objects [] w = ([], w)"
| "describe_objects (obj # rest) w =
     (if has_fdesc (w obj) \<and> \<not> seen (w obj) then
        (fdesc (w obj) # fst (describe_objects rest (w(obj := (w obj)\<lparr>seen := True\<rparr>))),
         snd (describe_objects rest (w(obj := (w obj)\<lparr>seen := True\<rparr>))))
      else if has_ldesc (w obj) then
        (ldesc (w obj) # fst (describe_objects rest w), snd (describe_objects rest w))
      else
        ((''There is '' @ short_desc (w obj) @ '' here.'') # fst (describe_objects rest w),
         snd (describe_objects rest w)))"

text \<open>The objects \<open>Room.describe\<close> lists: the filter tests bit 0 of the flags.\<close>

definition visible_objects :: "world \<Rightarrow> nat \<Rightarrow> nat list" where
  "visible_objects w self =
     filter (\<lambda>obj. \<not> has_flag (w obj) (flags (w obj) AND push_bit 0 1)) (contents (w self))"

definition describe_parts :: "world \<Rightarrow> nat \<Rightarrow> bool \<Rightarrow> string list \<times> world" where
  "describe_parts w self verbose =
     (let parts = [short_desc (w self), []]
                  @ (if verbose \<or> \<not> visited (w self) then [long_desc (w self)] else [])
      in if visible_objects w self \<noteq> []
         then (parts @ [[]] @ fst (describe_objects (visible_objects w self) w),
               snd (describe_objects (visible_objects w self) w))
         else (parts, w))"

text \<open>\<open>"\<bsol>n".join(parts)\<close>.\<close>

fun join_lines :: "string list \<Rightarrow> string" where
  "join_lines [] = []"
| "join_lines [p] = p"
| "join_lines (p # q # ps) = p @ [CHR 0x0A] @ join_lines (q # ps)"

definition describe :: "world \<Rightarrow> nat \<Rightarrow> bool \<Rightarrow> string \<times> world" where
  "describe w self verbose =
     (join_lines (fst (describe_parts w self verbose)), snd (describe_parts w self verbose))"

text \<open>\<open>Room.on_enter\<close>.\<close>

definition on_enter :: "world \<Rightarrow> nat \<Rightarrow> nat \<Rightarrow> ActionResult \<times> world" where
  "on_enter w self actor =
     (if (case room_action (w self) of None \<Rightarrow> False | Some f \<Rightarrow> f ''ENTER'')
      then (HANDLED, w)
      else (NOT_HANDLED, w(self := (w self)\<lparr>visited := True\<rparr>)))"

section \<open>Example worlds\<close>

text \<open>
  The end-to-end scene of the specification, built the way the constructors build it:
  room \<open>R\<close> is object 0; the openable container \<open>box\<close> is object 1, created in the
  room; the item \<open>coin\<close> is object 2, created in the box; the actor is object 3,
  created in the room. A constructor that is given a location calls \<open>move_to\<close>.
\<close>

definition scene_objects :: world where
  "scene_objects = (\<lambda>_. blank)
     (0 := new_room ''R'' ''A bare room.'' 0,
      1 := new_container ''box'' OPENABLE False,
      2 := new_item ''coin'' [] [] TAKEBIT,
      3 := new_actor 10)"

definition scene :: world where
  "scene = move_to 3 (Some 0) (move_to 2 (Some 1) (move_to 1 (Some 0) scene_objects))"

definition scene_box_open :: world where
  "scene_box_open = scene(1 := snd (container_open (scene 1)))"

text \<open>
  A room without light of its own (\<open>light_level\<close> set to 0 after construction), an
  actor in it, and a lantern that is switched on, carried by the actor.
\<close>

definition cellar_objects :: world where
  "cellar_objects = (\<lambda>_. blank)
     (0 := (new_room ''Cellar'' ''You are in a dark and damp cellar.'' 0)\<lparr>light_level := 0\<rparr>,
      1 := new_actor 10,
      2 := new_item ''brass lantern'' [] [] (TAKEBIT OR LIGHTBIT OR ONBIT))"

definition cellar :: world where
  "cellar = move_to 2 (Some 1) (move_to 1 (Some 0) cellar_objects)"

text \<open>
  A room holding one item flagged \<open>NDESCBIT\<close> and one item flagged \<open>INVISIBLE\<close>.
\<close>

definition kitchen_objects :: world where
  "kitchen_objects = (\<lambda>_. blank)
     (0 := new_room ''Kitchen'' ''You are in the kitchen.'' 0,
      1 := new_item ''table'' ''A table is here.'' ''There is a table.'' NDESCBIT,
      2 := new_item ''ghost'' ''A ghost floats here.'' ''The ghost is still here.'' INVISIBLE)"

definition kitchen :: world where
  "kitchen = move_to 2 (Some 0) (move_to 1 (Some 0) kitchen_objects)"

section \<open>Actor health: theorems\<close>

text \<open>
  C4. \<open>take_damage\<close> on an actor that is not dead applies \<open>min amount health\<close>, which is
  at most the current health, so the health afterwards is not negative; the actor is
  dead afterwards exactly when the resulting health is 0, and the returned pair is the
  damage applied and whether the actor died. On a dead actor it returns \<open>(0, True)\<close> and
  changes nothing. Death is permanent: neither \<open>take_damage\<close> nor \<open>heal\<close> revives a dead
  actor.
\<close>

theorem take_damage_clamps:
  "(\<not> is_dead a \<longrightarrow>
      fst (fst (take_damage amount a)) = min amount (health a)
      \<and> fst (fst (take_damage amount a)) \<le> health a
      \<and> health (snd (take_damage amount a)) = health a - fst (fst (take_damage amount a))
      \<and> 0 \<le> health (snd (take_damage amount a))
      \<and> is_dead (snd (take_damage amount a)) = (health (snd (take_damage amount a)) = 0)
      \<and> snd (fst (take_damage amount a)) = is_dead (snd (take_damage amount a)))
   \<and> (is_dead a \<longrightarrow> take_damage amount a = ((0, True), a))
   \<and> (is_dead (snd (take_damage amount a)) \<longrightarrow>
        is_dead (snd (take_damage m (snd (take_damage amount a))))
        \<and> is_dead (snd (heal m (snd (take_damage amount a))))
        \<and> heal m (snd (take_damage amount a)) = (0, snd (take_damage amount a)))"
  by (auto simp: take_damage_def heal_def Let_def)

theorem take_damage_clamps_witness:
  "take_damage 15 (new_actor 10) = ((10, True), (new_actor 10)\<lparr>health := 0, is_dead := True\<rparr>)
   \<and> heal 5 (snd (take_damage 15 (new_actor 10))) = (0, snd (take_damage 15 (new_actor 10)))
   \<and> take_damage 7 (snd (take_damage 15 (new_actor 10))) = ((0, True), snd (take_damage 15 (new_actor 10)))
   \<and> \<not> is_dead (new_actor 10)"
  using take_damage_clamps [of "new_actor 10" 15 5]
    take_damage_clamps [of "snd (take_damage 15 (new_actor 10))" 7 5]
  by (simp add: take_damage_def heal_def new_actor_def blank_def Let_def)


text \<open>
  C5. As stated the property fails for negative amounts: \<open>heal\<close> with a negative amount
  lowers the health below 0 without setting the dead flag, and \<open>take_damage\<close> with a
  negative amount raises it above \<open>max_health\<close>.
\<close>

theorem health_range_counterexample:
  "health (run_health_ops [Heal (- 5)] (new_actor 3)) = - 2
   \<and> \<not> is_dead (run_health_ops [Heal (- 5)] (new_actor 3))
   \<and> health (run_health_ops [TakeDamage (- 5)] (new_actor 3)) = 8
   \<and> max_health (run_health_ops [TakeDamage (- 5)] (new_actor 3)) = 3"
  by (simp add: run_health_ops_def take_damage_def heal_def new_actor_def blank_def Let_def)

lemma take_damage_inv:
  "health_inv a \<Longrightarrow> 0 \<le> n \<Longrightarrow> health_inv (snd (take_damage n a))"
  by (auto simp: health_inv_def take_damage_def Let_def)

lemma heal_inv:
  "health_inv a \<Longrightarrow> 0 \<le> n \<Longrightarrow> health_inv (snd (heal n a))"
  by (auto simp: health_inv_def heal_def Let_def)

lemma apply_health_op_inv:
  "health_inv a \<Longrightarrow> 0 \<le> op_amount x \<Longrightarrow> health_inv (apply_health_op a x)"
  by (cases x) (simp_all add: take_damage_inv heal_inv)

lemma apply_health_op_dead:
  "is_dead a \<Longrightarrow> is_dead (apply_health_op a x)"
  by (cases x) (simp_all add: take_damage_def heal_def)

lemma run_health_ops_inv:
  "health_inv a \<Longrightarrow> list_all (\<lambda>x. 0 \<le> op_amount x) ops \<Longrightarrow> health_inv (run_health_ops ops a)"
  unfolding run_health_ops_def
  by (induction ops arbitrary: a) (simp_all add: apply_health_op_inv)

lemma run_health_ops_dead:
  "is_dead a \<Longrightarrow> is_dead (run_health_ops ops a)"
  unfolding run_health_ops_def
  by (induction ops arbitrary: a) (simp_all add: apply_health_op_dead)

text \<open>
  C5, amended. For an actor whose health is within \<open>[0, max_health]\<close> and whose dead
  flag is set exactly when its health is 0, and for every sequence of \<open>take_damage\<close>
  and \<open>heal\<close> operations with non-negative amounts, the same holds after the sequence,
  and once the actor is dead after a part of the sequence it is dead after the whole
  of it.
\<close>

theorem health_invariant:
  assumes "health_inv a"
    and "list_all (\<lambda>x. 0 \<le> op_amount x) (ops1 @ ops2)"
  shows "0 \<le> health (run_health_ops (ops1 @ ops2) a)
         \<and> health (run_health_ops (ops1 @ ops2) a) \<le> max_health (run_health_ops (ops1 @ ops2) a)
         \<and> is_dead (run_health_ops (ops1 @ ops2) a) = (health (run_health_ops (ops1 @ ops2) a) = 0)
         \<and> (is_dead (run_health_ops ops1 a) \<longrightarrow> is_dead (run_health_ops (ops1 @ ops2) a))"
proof -
  have "health_inv (run_health_ops (ops1 @ ops2) a)"
    using assms by (rule run_health_ops_inv)
  moreover have "run_health_ops (ops1 @ ops2) a = run_health_ops ops2 (run_health_ops ops1 a)"
    by (simp add: run_health_ops_def)
  ultimately show ?thesis
    using run_health_ops_dead [of "run_health_ops ops1 a" ops2]
    by (auto simp: health_inv_def)
qed

theorem health_invariant_witness:
  "health_inv (new_actor 10)
   \<and> list_all (\<lambda>x. 0 \<le> op_amount x) ([TakeDamage 4, Heal 9, TakeDamage 15] @ [Heal 5])
   \<and> is_dead (run_health_ops [TakeDamage 4, Heal 9, TakeDamage 15] (new_actor 10))
   \<and> is_dead (run_health_ops ([TakeDamage 4, Heal 9, TakeDamage 15] @ [Heal 5]) (new_actor 10))
   \<and> health (run_health_ops ([TakeDamage 4, Heal 9, TakeDamage 15] @ [Heal 5]) (new_actor 10)) = 0"
proof -
  have inv: "health_inv (new_actor 10)"
    by (simp add: health_inv_def new_actor_def blank_def)
  have amounts: "list_all (\<lambda>x. 0 \<le> op_amount x) ([TakeDamage 4, Heal 9, TakeDamage 15] @ [Heal 5])"
    by simp
  have dead: "is_dead (run_health_ops [TakeDamage 4, Heal 9, TakeDamage 15] (new_actor 10))"
    by (simp add: run_health_ops_def take_damage_def heal_def new_actor_def blank_def Let_def)
  from health_invariant [OF inv amounts] inv amounts dead show ?thesis
    by auto
qed

section \<open>Container state machine: theorems\<close>

lemma has_flag_bit: "has_flag c (2 ^ n) = bit (flags c) n"
  by (simp add: has_flag_def and_exp_eq_0_iff_not_bit)

text \<open>The value of an \<open>ObjectFlag\<close> agrees with the integer on the declared bits.\<close>

lemma max_power2: "max ((2::int) ^ a) (2 ^ b) = 2 ^ max a b"
  by (simp add: max_def)

lemma take_bit_add_power:
  assumes "m \<le> k"
  shows "take_bit m ((2::int) ^ k + v) = take_bit m v"
proof -
  from assms have "(2::int) ^ m dvd 2 ^ k"
    by (rule le_imp_power_dvd)
  then have "((2::int) ^ k + v) mod 2 ^ m = v mod 2 ^ m"
    by (metis dvd_eq_mod_eq_0 mod_add_left_eq add.left_neutral)
  then show ?thesis
    by (simp only: take_bit_eq_mod)
qed

lemma take_bit_ObjectFlag_value:
  "take_bit 36 (ObjectFlag_value v) = take_bit 36 v"
proof -
  have a: "all_bits + 1 = 2 ^ 36"
    by (simp add: all_bits_def)
  define v1 where "v1 = (if \<not> (NOT all_bits \<le> v \<and> v \<le> all_bits) \<and> v < 0
                then max (all_bits + 1) (2 ^ bit_length \<bar>v\<bar>) + v
                else v)"
  have r: "ObjectFlag_value v = (if v1 < 0 then all_bits + 1 + v1 else v1)"
    unfolding ObjectFlag_value_def v1_def Let_def ..
  have t1: "take_bit 36 v1 = take_bit 36 v"
  proof (cases "\<not> (NOT all_bits \<le> v \<and> v \<le> all_bits) \<and> v < 0")
    case True
    then have "v1 = 2 ^ max 36 (bit_length \<bar>v\<bar>) + v"
      unfolding v1_def a max_power2 by simp
    then show ?thesis
      by (simp only: take_bit_add_power [of 36 "max 36 (bit_length \<bar>v\<bar>)" v] max.cobounded1)
  next
    case False
    then have "v1 = v"
      by (auto simp: v1_def)
    then show ?thesis by (simp only:)
  qed
  have t2: "take_bit 36 (ObjectFlag_value v) = take_bit 36 v1"
  proof (cases "v1 < 0")
    case True
    then have "ObjectFlag_value v = 2 ^ 36 + v1"
      unfolding r a by simp
    then show ?thesis
      by (simp only: take_bit_add_power [of 36 36 v1] order_refl)
  next
    case False
    then have "ObjectFlag_value v = v1"
      unfolding r by simp
    then show ?thesis by (simp only:)
  qed
  from t1 t2 show ?thesis by (simp only:)
qed

lemma bit_ObjectFlag_value:
  "n < 36 \<Longrightarrow> bit (ObjectFlag_value v) n = bit v n"
  using take_bit_ObjectFlag_value [of v]
  by (metis bit_take_bit_iff)

lemma has_flag_set_flag:
  "n < 36 \<Longrightarrow> has_flag (set_flag c (2 ^ m)) (2 ^ n) = (n = m \<or> has_flag c (2 ^ n))"
  by (auto simp: has_flag_bit set_flag_def bit_ObjectFlag_value bit_or_iff bit_exp_iff)

lemma has_flag_clear_flag:
  "n < 36 \<Longrightarrow>
     has_flag (clear_flag c (2 ^ m)) (2 ^ n) = (n \<noteq> m \<and> has_flag c (2 ^ n))"
  by (auto simp: has_flag_bit clear_flag_def bit_ObjectFlag_value bit_and_iff bit_not_iff
      bit_exp_iff)

lemma clear_locked_flags:
  "has_flag (clear_flag c LOCKEDBIT) OPENBIT = has_flag c OPENBIT"
  "has_flag (clear_flag c LOCKEDBIT) OPENABLE = has_flag c OPENABLE"
  "\<not> has_flag (clear_flag c LOCKEDBIT) LOCKEDBIT"
  using has_flag_clear_flag [of 5 c 34] has_flag_clear_flag [of 35 c 34]
    has_flag_clear_flag [of 34 c 34]
  by (simp_all add: LOCKEDBIT_def OPENBIT_def OPENABLE_def)

lemma set_open_flags:
  "has_flag (set_flag c OPENBIT) OPENBIT"
  "has_flag (set_flag c OPENBIT) LOCKEDBIT = has_flag c LOCKEDBIT"
  using has_flag_set_flag [of 5 c 5] has_flag_set_flag [of 34 c 5]
  by (simp_all add: LOCKEDBIT_def OPENBIT_def)

lemma is_surface_set_flag: "is_surface (set_flag c f) = is_surface c"
  by (simp add: set_flag_def)

lemma is_surface_clear_flag: "is_surface (clear_flag c f) = is_surface c"
  by (simp add: clear_flag_def)

text \<open>
  C7. As stated the property fails for a locked container without the openable flag:
  \<open>open\<close> answers that it cannot be opened, not that it is locked, and after
  \<open>unlock\<close> the container still cannot be opened.
\<close>

theorem locked_open_counterexample:
  "\<not> is_surface (new_container ''box'' LOCKEDBIT False)
   \<and> is_locked (new_container ''box'' LOCKEDBIT False)
   \<and> \<not> is_open (new_container ''box'' LOCKEDBIT False)
   \<and> fst (container_open (new_container ''box'' LOCKEDBIT False)) = (False, ''You can't open that.'')
   \<and> fst (unlock (new_container ''box'' LOCKEDBIT False)) = (True, ''Unlocked.'')
   \<and> fst (container_open (snd (unlock (new_container ''box'' LOCKEDBIT False))))
       = (False, ''You can't open that.'')
   \<and> \<not> is_open (snd (container_open (snd (unlock (new_container ''box'' LOCKEDBIT False)))))"
  by code_simp

text \<open>
  C7, amended. For every non-surface container that has the openable flag and is in
  the Closed+Locked state: \<open>open\<close> fails with the locked message and changes nothing;
  \<open>unlock\<close> succeeds, \<open>open\<close> then succeeds, and the container ends open and unlocked.
\<close>

theorem locked_open_unlock:
  assumes "\<not> is_surface c" and "has_flag c OPENABLE"
    and "is_locked c" and "\<not> is_open c"
  shows "container_open c = ((False, ''The '' @ short_desc c @ '' is locked.''), c)
         \<and> fst (unlock c) = (True, ''Unlocked.'')
         \<and> fst (container_open (snd (unlock c))) = (True, ''Opened.'')
         \<and> is_open (snd (container_open (snd (unlock c))))
         \<and> \<not> is_locked (snd (container_open (snd (unlock c))))"
  using assms
  by (simp add: container_open_def unlock_def is_open_def is_openable_def is_locked_def
      clear_locked_flags set_open_flags is_surface_set_flag is_surface_clear_flag)

theorem locked_open_unlock_witness:
  "\<not> is_surface (new_container ''box'' (OPENABLE OR LOCKEDBIT) False)
   \<and> has_flag (new_container ''box'' (OPENABLE OR LOCKEDBIT) False) OPENABLE
   \<and> is_locked (new_container ''box'' (OPENABLE OR LOCKEDBIT) False)
   \<and> \<not> is_open (new_container ''box'' (OPENABLE OR LOCKEDBIT) False)
   \<and> fst (container_open (new_container ''box'' (OPENABLE OR LOCKEDBIT) False))
       = (False, ''The box is locked.'')
   \<and> is_open (snd (container_open (snd (unlock (new_container ''box'' (OPENABLE OR LOCKEDBIT) False)))))"
proof -
  have h: "\<not> is_surface (new_container ''box'' (OPENABLE OR LOCKEDBIT) False)"
    "has_flag (new_container ''box'' (OPENABLE OR LOCKEDBIT) False) OPENABLE"
    "is_locked (new_container ''box'' (OPENABLE OR LOCKEDBIT) False)"
    "\<not> is_open (new_container ''box'' (OPENABLE OR LOCKEDBIT) False)"
    by code_simp+
  have sd: "short_desc (new_container ''box'' (OPENABLE OR LOCKEDBIT) False) = ''box''"
    by (simp add: new_container_def)
  from locked_open_unlock [OF h] h sd show ?thesis
    by simp
qed

text \<open>
  C9. A non-surface container without the openable flag refuses both \<open>open\<close> and
  \<open>close\<close> with the fixed messages and is returned unchanged, whatever its open and
  locked flags are.
\<close>

theorem not_openable_refused:
  assumes "\<not> is_surface c" and "\<not> has_flag c OPENABLE"
  shows "container_open c = ((False, ''You can't open that.''), c)
         \<and> container_close c = ((False, ''You can't close that.''), c)"
  using assms
  by (simp add: container_open_def container_close_def is_openable_def)

theorem not_openable_refused_witness:
  "\<not> is_surface (new_container ''chest'' 0 False)
   \<and> \<not> has_flag (new_container ''chest'' 0 False) OPENABLE
   \<and> \<not> is_locked (new_container ''chest'' 0 False)
   \<and> \<not> is_open (new_container ''chest'' 0 False)
   \<and> container_open (new_container ''chest'' 0 False)
       = ((False, ''You can't open that.''), new_container ''chest'' 0 False)
   \<and> is_open (new_container ''chest'' OPENBIT False)
   \<and> \<not> has_flag (new_container ''chest'' OPENBIT False) OPENABLE
   \<and> container_close (new_container ''chest'' OPENBIT False)
       = ((False, ''You can't close that.''), new_container ''chest'' OPENBIT False)"
proof -
  have h: "\<not> is_surface (new_container ''chest'' 0 False)"
    "\<not> has_flag (new_container ''chest'' 0 False) OPENABLE"
    "\<not> is_surface (new_container ''chest'' OPENBIT False)"
    "\<not> has_flag (new_container ''chest'' OPENBIT False) OPENABLE"
    by code_simp+
  have st: "\<not> is_locked (new_container ''chest'' 0 False)"
    "\<not> is_open (new_container ''chest'' 0 False)"
    "is_open (new_container ''chest'' OPENBIT False)"
    by code_simp+
  from not_openable_refused [OF h(1,2)] not_openable_refused [OF h(3,4)] h st show ?thesis
    by simp
qed

section \<open>Containment graph: theorems\<close>

text \<open>What \<open>move_to\<close> does to every location and to every children list.\<close>

lemma location_move_to:
  "location (move_to e P w x) = (if x = e then P else location (w x))"
  by (simp add: move_to_def Let_def split: option.splits)

lemma contents_move_to:
  "contents (move_to e P w p) =
     (if P = Some p
         \<and> e \<notin> set (if location (w e) = Some p then remove1 e (contents (w p))
                     else contents (w p))
      then (if location (w e) = Some p then remove1 e (contents (w p)) else contents (w p)) @ [e]
      else (if location (w e) = Some p then remove1 e (contents (w p)) else contents (w p)))"
  by (auto simp: move_to_def Let_def remove1_idem split: option.splits)

text \<open>The containment invariant is kept by every move.\<close>

lemma move_to_wf:
  assumes "containment_wf w"
  shows "containment_wf (move_to e P w)"
  unfolding containment_wf_def
proof (intro allI conjI)
  fix p
  from assms have d: "distinct (contents (w p))"
    by (simp add: containment_wf_def)
  show "distinct (contents (move_to e P w p))"
    using d by (simp add: contents_move_to)
next
  fix p x
  from assms have d: "distinct (contents (w p))"
    and m: "x \<in> set (contents (w p)) \<longleftrightarrow> location (w x) = Some p"
    and me: "e \<in> set (contents (w p)) \<longleftrightarrow> location (w e) = Some p"
    by (simp_all add: containment_wf_def)
  show "x \<in> set (contents (move_to e P w p)) \<longleftrightarrow> location (move_to e P w x) = Some p"
    using d m me by (auto simp: contents_move_to location_move_to)
qed

lemma scene_objects_wf: "containment_wf scene_objects"
  by (simp add: containment_wf_def scene_objects_def new_room_def new_container_def
      new_item_def new_actor_def blank_def)

lemma scene_wf: "containment_wf scene"
  unfolding scene_def by (intro move_to_wf scene_objects_wf)

lemma distinct_count_list_one:
  "distinct xs \<Longrightarrow> x \<in> set xs \<Longrightarrow> count_list xs x = 1"
  by (induction xs) auto

text \<open>
  C6. In a store that satisfies the containment invariant, after \<open>move_to e P\<close>: the
  location of \<open>e\<close> is \<open>P\<close>; \<open>e\<close> is in the children list of an object exactly when that
  object is \<open>P\<close> (so in no list when \<open>P\<close> is null); \<open>e\<close> is absent from the children of
  its prior parent, when that parent is another object than \<open>P\<close>; and \<open>e\<close> occurs
  exactly once in the children of \<open>P\<close>, also after the same move is repeated.
\<close>

theorem move_to_postcondition:
  assumes "containment_wf w"
  shows "location (move_to e P w e) = P
         \<and> (\<forall>p. e \<in> set (contents (move_to e P w p)) \<longleftrightarrow> P = Some p)
         \<and> (\<forall>q. location (w e) = Some q \<and> P \<noteq> Some q
                \<longrightarrow> e \<notin> set (contents (move_to e P w q)))
         \<and> (\<forall>p. P = Some p \<longrightarrow>
               count_list (contents (move_to e P w p)) e = 1
               \<and> count_list (contents (move_to e P (move_to e P w) p)) e = 1)"
proof -
  have loc: "location (move_to e P w e) = P"
    by (simp add: location_move_to)
  have wf1: "containment_wf (move_to e P w)"
    using assms by (rule move_to_wf)
  have wf2: "containment_wf (move_to e P (move_to e P w))"
    using wf1 by (rule move_to_wf)
  have mem: "e \<in> set (contents (move_to e P w p)) \<longleftrightarrow> P = Some p" for p
    using wf1 loc by (simp add: containment_wf_def)
  have loc2: "location (move_to e P (move_to e P w) e) = P"
    by (simp add: location_move_to)
  have mem2: "e \<in> set (contents (move_to e P (move_to e P w) p)) \<longleftrightarrow> P = Some p" for p
    using wf2 loc2 by (simp add: containment_wf_def)
  have once: "count_list (contents (move_to e P w p)) e = 1" if "P = Some p" for p
    using wf1 mem [of p] that by (simp add: containment_wf_def distinct_count_list_one)
  have twice: "count_list (contents (move_to e P (move_to e P w) p)) e = 1"
    if "P = Some p" for p
    using wf2 mem2 [of p] that by (simp add: containment_wf_def distinct_count_list_one)
  show ?thesis
    using loc mem once twice by auto
qed

theorem move_to_postcondition_witness:
  "containment_wf scene
   \<and> location (scene 2) = Some 1
   \<and> location (move_to 2 (Some 0) scene 2) = Some 0
   \<and> contents (move_to 2 (Some 0) scene 0) = [1, 3, 2]
   \<and> contents (move_to 2 (Some 0) scene 1) = []
   \<and> contents (move_to 2 (Some 0) (move_to 2 (Some 0) scene) 0) = [1, 3, 2]
   \<and> count_list (contents (move_to 2 (Some 0) (move_to 2 (Some 0) scene) 0)) 2 = 1"
proof -
  have ev: "location (scene 2) = Some 1"
    "contents (move_to 2 (Some 0) scene 0) = [1, 3, 2]"
    "contents (move_to 2 (Some 0) scene 1) = []"
    "contents (move_to 2 (Some 0) (move_to 2 (Some 0) scene) 0) = [1, 3, 2]"
    by code_simp+
  from move_to_postcondition [OF scene_wf, of 2 "Some 0"] scene_wf ev show ?thesis
    by simp
qed

text \<open>
  C2. As stated the property fails: \<open>move_to\<close> has no test for cycles. In the scene the
  coin is a descendant of the box; moving the box into the coin completes, takes the
  box out of the room and makes box and coin each other's parent.
\<close>

theorem move_into_descendant_counterexample:
  "in_subtree scene 1 2
   \<and> location (scene 1) = Some 0 \<and> contents (scene 0) = [1, 3] \<and> contents (scene 2) = []
   \<and> location (move_to 1 (Some 2) scene 1) = Some 2
   \<and> contents (move_to 1 (Some 2) scene 0) = [3]
   \<and> contents (move_to 1 (Some 2) scene 2) = [1]
   \<and> location (move_to 1 (Some 2) scene 2) = Some 1"
proof -
  have "2 \<in> set (contents (scene 1))"
    by code_simp
  then have "in_subtree scene 1 2"
    by (rule in_subtree.child)
  moreover have "location (scene 1) = Some 0" "contents (scene 0) = [1, 3]"
    "contents (scene 2) = []"
    "location (move_to 1 (Some 2) scene 1) = Some 2"
    "contents (move_to 1 (Some 2) scene 0) = [3]"
    "contents (move_to 1 (Some 2) scene 2) = [1]"
    "location (move_to 1 (Some 2) scene 2) = Some 1"
    by code_simp+
  ultimately show ?thesis by simp
qed

text \<open>
  C2, amended. For every entity \<open>e\<close> and every target \<open>p\<close> that is \<open>e\<close> itself or a
  descendant of \<open>e\<close>, \<open>move_to\<close> makes no check and completes like any other move:
  afterwards the location of \<open>e\<close> is \<open>p\<close>, \<open>e\<close> is among the children of \<open>p\<close>, and
  the location of every other object is as before.
\<close>

theorem move_into_descendant:
  assumes "p = e \<or> in_subtree w e p"
  shows "location (move_to e (Some p) w e) = Some p
         \<and> e \<in> set (contents (move_to e (Some p) w p))
         \<and> (\<forall>x. x \<noteq> e \<longrightarrow> location (move_to e (Some p) w x) = location (w x))"
  by (simp add: location_move_to contents_move_to)

theorem move_into_descendant_witness:
  "(2 = (1::nat) \<or> in_subtree scene 1 2)
   \<and> location (move_to 1 (Some 2) scene 1) = Some 2
   \<and> 1 \<in> set (contents (move_to 1 (Some 2) scene 2))
   \<and> location (move_to 1 (Some 1) scene 1) = Some 1
   \<and> 1 \<in> set (contents (move_to 1 (Some 1) scene 1))"
proof -
  have "2 \<in> set (contents (scene 1))"
    by code_simp
  then have h: "2 = (1::nat) \<or> in_subtree scene 1 2"
    by (simp add: in_subtree.child)
  have h': "1 = (1::nat) \<or> in_subtree scene 1 1"
    by simp
  from move_into_descendant [OF h] move_into_descendant [OF h'] h show ?thesis
    by simp
qed

section \<open>Accessibility and light: theorems\<close>

text \<open>
  C1, evaluated where the code departs from the stated property. The actor and the box are in
  the room, the box is open and the coin is in the box, and \<open>is_accessible_to\<close>
  returns false: \<open>_containers_accessible\<close> does not stop at the room but goes on to
  test the room's own flags for the open and the transparent bit. With the box closed
  the answer is false as well; it is true only once the room itself carries the open
  bit.
\<close>

theorem accessible_open_box_evaluated:
  "kind (scene_box_open 0) = Room \<and> kind (scene_box_open 1) = Container
   \<and> location (scene_box_open 3) = Some 0
   \<and> location (scene_box_open 1) = Some 0
   \<and> location (scene_box_open 2) = Some 1
   \<and> is_open (scene_box_open 1)
   \<and> is_accessible_to scene_box_open 2 3 = Some False
   \<and> is_accessible_to scene 2 3 = Some False
   \<and> is_accessible_to (scene_box_open(0 := (scene_box_open 0)\<lparr>flags := OPENBIT\<rparr>)) 2 3
       = Some True"
  by code_simp

text \<open>
  C3, evaluated where the code departs from the stated property. The room has no light of its
  own, the actor is in the room and carries a lantern with the light and the on flag,
  and \<open>is_lit\<close> returns false: only the direct children of the room are tested. Once
  the lantern lies in the room itself the room is lit.
\<close>

theorem carried_lantern_evaluated:
  "light_level (cellar 0) = 0
   \<and> contents (cellar 0) = [1] \<and> kind (cellar 1) = Actor
   \<and> contents (cellar 1) = [2]
   \<and> has_flag (cellar 2) LIGHTBIT \<and> has_flag (cellar 2) ONBIT
   \<and> \<not> is_lit cellar 0
   \<and> is_lit (move_to 2 (Some 0) cellar) 0"
  by code_simp

section \<open>Room description: theorems\<close>

text \<open>
  C8, evaluated where the code departs from the stated property. The filter of \<open>Room.describe\<close>
  tests bit 0 of the flags, which is \<open>INVISIBLE\<close>; \<open>NDESCBIT\<close> is bit 1. The table,
  flagged \<open>NDESCBIT\<close>, is listed and marked seen; the ghost, which is not flagged
  \<open>NDESCBIT\<close>, is not listed.
\<close>

theorem describe_lists_ndesc_evaluated:
  "contents (kitchen 0) = [1, 2]
   \<and> has_flag (kitchen 1) NDESCBIT
   \<and> \<not> has_flag (kitchen 2) NDESCBIT
   \<and> fst (describe_parts kitchen 0 False)
       = [''Kitchen'', [], ''You are in the kitchen.'', [], ''A table is here.'']
   \<and> seen (snd (describe_parts kitchen 0 False) 1)
   \<and> \<not> seen (snd (describe_parts kitchen 0 False) 2)"
  by code_simp

text \<open>The loop over the listed objects changes nothing but \<open>seen\<close>, and only of those.\<close>

lemma describe_objects_frame:
  "snd (describe_objects xs w) x = (w x)\<lparr>seen := seen (snd (describe_objects xs w) x)\<rparr>"
proof (induction xs arbitrary: w)
  case Nil
  show ?case by simp
next
  case (Cons a xs)
  let ?w' = "w(a := (w a)\<lparr>seen := True\<rparr>)"
  have marked: "snd (describe_objects xs ?w') x
      = (w x)\<lparr>seen := seen (snd (describe_objects xs ?w') x)\<rparr>"
  proof -
    have "snd (describe_objects xs ?w') x
        = (?w' x)\<lparr>seen := seen (snd (describe_objects xs ?w') x)\<rparr>"
      by (rule Cons.IH)
    also have "\<dots> = (w x)\<lparr>seen := seen (snd (describe_objects xs ?w') x)\<rparr>"
      by simp
    finally show ?thesis .
  qed
  show ?case
    using marked Cons.IH [of w] by simp
qed

lemma describe_objects_others:
  "x \<notin> set xs \<Longrightarrow> snd (describe_objects xs w) x = w x"
  by (induction xs arbitrary: w) auto

lemma describe_parts_frame:
  "snd (describe_parts w r v) x = (w x)\<lparr>seen := seen (snd (describe_parts w r v) x)\<rparr>"
  using describe_objects_frame [of "visible_objects w r" w x]
  by (simp add: describe_parts_def Let_def)

lemma describe_parts_others:
  "x \<notin> set (visible_objects w r) \<Longrightarrow> snd (describe_parts w r v) x = w x"
  by (simp add: describe_parts_def Let_def describe_objects_others)

lemma describe_parts_head:
  "\<not> visited (w r) \<Longrightarrow>
     take 3 (fst (describe_parts w r False)) = [short_desc (w r), [], long_desc (w r)]"
  by (simp add: describe_parts_def Let_def)

text \<open>\<open>join_lines\<close> puts the first part in front of the rest, with a newline between.\<close>

lemma join_lines_Cons:
  "join_lines (p # ps) = p @ (if ps = [] then [] else CHR 0x0A # join_lines ps)"
  by (cases ps) simp_all

lemma describe_parts_unvisited:
  "\<not> visited (w r) \<Longrightarrow>
     \<exists>rest. fst (describe_parts w r False) = short_desc (w r) # [] # long_desc (w r) # rest"
  by (simp add: describe_parts_def Let_def)

text \<open>
  The string returned for a room that is not visited starts with the name, two
  newlines and the long description.
\<close>

lemma describe_head:
  assumes "\<not> visited (w r)"
  shows "take (length (short_desc (w r)) + 2 + length (long_desc (w r)))
              (fst (describe w r False))
         = short_desc (w r) @ [CHR 0x0A, CHR 0x0A] @ long_desc (w r)"
proof -
  from assms obtain rest
    where parts: "fst (describe_parts w r False)
                  = short_desc (w r) # [] # long_desc (w r) # rest"
    using describe_parts_unvisited by blast
  have "fst (describe w r False)
        = (short_desc (w r) @ [CHR 0x0A, CHR 0x0A] @ long_desc (w r))
          @ (if rest = [] then [] else CHR 0x0A # join_lines rest)"
    by (simp add: describe_def parts join_lines_Cons)
  then show ?thesis
    by simp
qed

text \<open>
  C10. \<open>describe\<close> returns every object as it was except for its \<open>seen\<close> attribute,
  and returns an object it does not list entirely as it was; so the \<open>visited\<close>
  attribute of every object, the room included, is unchanged. For a room that is not
  visited, the strings returned by two \<open>describe\<close> calls in a row without \<open>verbose\<close>
  both start with the name, two newlines and the long description; in the list of
  parts these are the first three. \<open>on_enter\<close>, for a room without a hook, is what
  sets \<open>visited\<close>.
\<close>

theorem describe_keeps_visited:
  "(\<forall>x. snd (describe w r v) x = (w x)\<lparr>seen := seen (snd (describe w r v) x)\<rparr>)
   \<and> (\<forall>x. x \<notin> set (visible_objects w r) \<longrightarrow> snd (describe w r v) x = w x)
   \<and> (\<forall>x. visited (snd (describe w r v) x) = visited (w x))
   \<and> (\<not> visited (w r) \<longrightarrow>
        take (length (short_desc (w r)) + 2 + length (long_desc (w r)))
             (fst (describe w r False))
          = short_desc (w r) @ [CHR 0x0A, CHR 0x0A] @ long_desc (w r)
        \<and> take (length (short_desc (w r)) + 2 + length (long_desc (w r)))
               (fst (describe (snd (describe w r False)) r False))
            = short_desc (w r) @ [CHR 0x0A, CHR 0x0A] @ long_desc (w r)
        \<and> take 3 (fst (describe_parts w r False)) = [short_desc (w r), [], long_desc (w r)]
        \<and> take 3 (fst (describe_parts (snd (describe w r False)) r False))
            = [short_desc (w r), [], long_desc (w r)])
   \<and> (room_action (w r) = None \<longrightarrow> visited (snd (on_enter w r a) r))"
proof -
  have frame: "snd (describe w r v) x = (w x)\<lparr>seen := seen (snd (describe w r v) x)\<rparr>"
    for x v
    using describe_parts_frame [of w r v x] by (simp add: describe_def)
  have others: "x \<notin> set (visible_objects w r) \<Longrightarrow> snd (describe w r v) x = w x" for x
    by (simp add: describe_def describe_parts_others)
  have vis: "visited (snd (describe w r v) x) = visited (w x)" for x v
    by (subst frame) simp
  have sd: "short_desc (snd (describe w r False) r) = short_desc (w r)"
    by (subst frame) simp
  have ld: "long_desc (snd (describe w r False) r) = long_desc (w r)"
    by (subst frame) simp
  have twice: "take 3 (fst (describe_parts (snd (describe w r False)) r False))
            = [short_desc (w r), [], long_desc (w r)]" if "\<not> visited (w r)"
    using describe_parts_head [of "snd (describe w r False)" r] that vis [of False r] sd ld
    by simp
  have text1: "take (length (short_desc (w r)) + 2 + length (long_desc (w r)))
                    (fst (describe w r False))
               = short_desc (w r) @ [CHR 0x0A, CHR 0x0A] @ long_desc (w r)"
    if "\<not> visited (w r)"
    using that by (rule describe_head)
  have text2: "take (length (short_desc (w r)) + 2 + length (long_desc (w r)))
                    (fst (describe (snd (describe w r False)) r False))
               = short_desc (w r) @ [CHR 0x0A, CHR 0x0A] @ long_desc (w r)"
    if "\<not> visited (w r)"
    using describe_head [of "snd (describe w r False)" r] that vis [of False r] sd ld
    by simp
  have enter: "visited (snd (on_enter w r a) r)" if "room_action (w r) = None"
    using that by (simp add: on_enter_def)
  show ?thesis
    using frame others vis describe_parts_head [of w r] twice text1 text2 enter by blast
qed

theorem describe_keeps_visited_witness:
  "\<not> visited (kitchen 0) \<and> room_action (kitchen 0) = None
   \<and> 0 \<notin> set (visible_objects kitchen 0)
   \<and> snd (describe kitchen 0 False) 0 = kitchen 0
   \<and> \<not> visited (snd (describe kitchen 0 False) 0)
   \<and> fst (describe kitchen 0 False)
       = ''Kitchen'' @ [CHR 0x0A, CHR 0x0A] @ ''You are in the kitchen.''
         @ [CHR 0x0A, CHR 0x0A] @ ''A table is here.''
   \<and> fst (describe (snd (describe kitchen 0 False)) 0 False)
       = ''Kitchen'' @ [CHR 0x0A, CHR 0x0A] @ ''You are in the kitchen.''
         @ [CHR 0x0A, CHR 0x0A] @ ''There is a table.''
   \<and> take (length ''Kitchen'' + 2 + length ''You are in the kitchen.'') (fst (describe kitchen 0 False))
       = ''Kitchen'' @ [CHR 0x0A, CHR 0x0A] @ ''You are in the kitchen.''
   \<and> take (length ''Kitchen'' + 2 + length ''You are in the kitchen.'') (fst (describe (snd (describe kitchen 0 False)) 0 False))
       = ''Kitchen'' @ [CHR 0x0A, CHR 0x0A] @ ''You are in the kitchen.''
   \<and> take 3 (fst (describe_parts kitchen 0 False))
       = [''Kitchen'', [], ''You are in the kitchen.'']
   \<and> take 3 (fst (describe_parts (snd (describe kitchen 0 False)) 0 False))
       = [''Kitchen'', [], ''You are in the kitchen.'']
   \<and> visited (snd (on_enter kitchen 0 1) 0)"
proof -
  have h: "\<not> visited (kitchen 0)" "room_action (kitchen 0) = None"
    "0 \<notin> set (visible_objects kitchen 0)"
    "short_desc (kitchen 0) = ''Kitchen''"
    "long_desc (kitchen 0) = ''You are in the kitchen.''"
    by code_simp+
  have out: "fst (describe kitchen 0 False)
       = ''Kitchen'' @ [CHR 0x0A, CHR 0x0A] @ ''You are in the kitchen.''
         @ [CHR 0x0A, CHR 0x0A] @ ''A table is here.''"
    "fst (describe (snd (describe kitchen 0 False)) 0 False)
       = ''Kitchen'' @ [CHR 0x0A, CHR 0x0A] @ ''You are in the kitchen.''
         @ [CHR 0x0A, CHR 0x0A] @ ''There is a table.''"
    by code_simp+
  from describe_keeps_visited [of kitchen 0 False 1] h have
    "snd (describe kitchen 0 False) 0 = kitchen 0"
    "\<not> visited (snd (describe kitchen 0 False) 0)"
    "take (length ''Kitchen'' + 2 + length ''You are in the kitchen.'') (fst (describe kitchen 0 False))
       = ''Kitchen'' @ [CHR 0x0A, CHR 0x0A] @ ''You are in the kitchen.''"
    "take (length ''Kitchen'' + 2 + length ''You are in the kitchen.'') (fst (describe (snd (describe kitchen 0 False)) 0 False))
       = ''Kitchen'' @ [CHR 0x0A, CHR 0x0A] @ ''You are in the kitchen.''"
    "take 3 (fst (describe_parts kitchen 0 False))
       = [''Kitchen'', [], ''You are in the kitchen.'']"
    "take 3 (fst (describe_parts (snd (describe kitchen 0 False)) 0 False))
       = [''Kitchen'', [], ''You are in the kitchen.'']"
    "visited (snd (on_enter kitchen 0 1) 0)"
    by simp_all
  with h out show ?thesis
    by simp
qed

end
